theory Spec2Isabelle
  imports Main
begin

section \<open>The file explorer's creation-mode reducer\<close>

text \<open>
  Source: \<^verbatim>\<open>src/components/editor/components/common/file-explorer.tsx\<close>.
  The tagged enums of the namespace \<^verbatim>\<open>FileExplorer\<close> become datatypes, the interface
  \<^verbatim>\<open>State\<close> becomes a record with its single field.

  \<^verbatim>\<open>InputType = "file" | "directory"\<close> is a union of two string literals; the
  reducer's test \<^verbatim>\<open>action.type === "file"\<close> is the test for the first constructor.
\<close>

datatype InputType = FileInput | DirectoryInput

datatype CreationMode =
    Idle
  | CreatingFile string
  | CreatingDirectory string

datatype Action =
    ShowInput InputType string
  | HideInput

record State =
  creationMode :: CreationMode

text \<open>
  \<^verbatim>\<open>
  function reducer(state, action) {
    switch (action._tag) {
      case "ShowInput": {
        const creationMode =
          action.type === "file"
            ? CreationMode.CreatingFile({ path: action.path })
            : CreationMode.CreatingDirectory({ path: action.path })
        return { ...state, creationMode }
      }
      case "HideInput": {
        return { ...state, creationMode: CreationMode.Idle() }
      }
    }
  }
  \<close>
  The object spread \<^verbatim>\<open>{ ...state, creationMode }\<close> is a record update of \<open>state\<close>.
\<close>

fun reducer :: "State \<Rightarrow> Action \<Rightarrow> State" where
  "reducer state (ShowInput type path) =
     (let creationMode' =
            (if type = FileInput then CreatingFile path else CreatingDirectory path)
      in state\<lparr>creationMode := creationMode'\<rparr>)"
| "reducer state HideInput = state\<lparr>creationMode := Idle\<rparr>"

definition initialState :: State where
  "initialState = \<lparr>creationMode = Idle\<rparr>"

text \<open>
  \<^verbatim>\<open>useReducer(reducer, initialState)\<close> keeps one state and replaces it by
  \<^verbatim>\<open>reducer(state, action)\<close> for each dispatched action, in dispatch order.
\<close>

fun dispatchAll :: "State \<Rightarrow> Action list \<Rightarrow> State" where
  "dispatchAll state [] = state"
| "dispatchAll state (action # actions) = dispatchAll (reducer state action) actions"

section \<open>The workspace handle: rewriting the files when the solved flag changes\<close>

text \<open>
  Source: the second module of the same source file (\<^verbatim>\<open>workspaceHandleRx\<close>). The types
  \<^verbatim>\<open>File\<close>, \<^verbatim>\<open>Workspace\<close> and \<^verbatim>\<open>WorkspaceShell\<close> are imported from
  \<^verbatim>\<open>./domain/workspace\<close>; the records below carry the fields the code reads.
  \<^verbatim>\<open>file.solution\<close> may be undefined, so it is an option. \<^verbatim>\<open>workspace.filePaths\<close> is
  iterated as a sequence of \<^verbatim>\<open>[file, path]\<close> pairs, so it is a list of pairs in
  iteration order; nothing in the code makes the paths of the list differ from each other.
\<close>

record File =
  initialContent :: string
  solution :: "string option"

record Workspace =
  name :: string
  filePaths :: "(File \<times> string) list"

record WorkspaceShell =
  command :: "string option"














section \<open>The terminal size signal\<close>











section \<open>The terminal of a workspace shell\<close>

text \<open>
  What the terminal session does to the outside is recorded as a trace of events, oldest
  first: the data handed to \<^verbatim>\<open>terminal.write\<close>, the data handed to the shell's input
  writer, the completion of \<^verbatim>\<open>prepare.await\<close>, the end of an \<^verbatim>\<open>Effect.sleep\<close> (in
  milliseconds) and the run of the \<^verbatim>\<open>mount\<close> effect.
\<close>

datatype Event =
    TerminalWrite string
  | InputWrite string
  | PrepareAwaited
  | Slept nat
  | Mounted

type_synonym Trace = "Event list"

definition terminal_write :: "string \<Rightarrow> Trace \<Rightarrow> Trace" where
  "terminal_write data t = t @ [TerminalWrite data]"

definition input_write :: "string \<Rightarrow> Trace \<Rightarrow> Trace" where
  "input_write data t = t @ [InputWrite data]"

text \<open>
  The session: the trace, the chunks \<^verbatim>\<open>shell.output\<close> holds that nobody has read yet,
  the sink \<^verbatim>\<open>shell.output\<close> is piped to (if any), and the listeners registered with
  \<^verbatim>\<open>terminal.onData\<close>, in registration order.
\<close>

record Session =
  trace :: Trace
  outputQueue :: "string list"
  outputSink :: "(string \<Rightarrow> Trace \<Rightarrow> Trace) option"
  dataListeners :: "(string \<Rightarrow> Trace \<Rightarrow> Trace) list"

text \<open>
  The state right after \<^verbatim>\<open>handle.shell\<close>, \<^verbatim>\<open>spawn(...)\<close> and
  \<^verbatim>\<open>shell.input.getWriter()\<close>: nothing written, nothing piped, nobody listening.
\<close>

definition newSession :: Session where
  "newSession = \<lparr>trace = [], outputQueue = [], outputSink = None, dataListeners = []\<rparr>"

definition onTrace :: "(Trace \<Rightarrow> Trace) \<Rightarrow> Session \<Rightarrow> Session" where
  "onTrace f s = s\<lparr>trace := f (trace s)\<rparr>"

text \<open>
  \<^verbatim>\<open>readable.pipeTo(new WritableStream({ write }))\<close>: a readable stream that is already
  piped is locked and stays with its first sink; otherwise the stream is piped to the sink.
  The call returns at once: the chunks the stream holds are handed to the sink later, by
  \<open>pump\<close>, when the synchronous code that called \<^verbatim>\<open>pipeTo\<close> has returned.
\<close>

definition pipeTo :: "(string \<Rightarrow> Trace \<Rightarrow> Trace) \<Rightarrow> Session \<Rightarrow> Session" where
  "pipeTo sink s =
     (case outputSink s of
        Some _ \<Rightarrow> s
      | None \<Rightarrow> s\<lparr>outputSink := Some sink\<rparr>)"

text \<open>
  The pipe at work: the sink of a piped stream receives the chunks the stream holds, in
  order; a stream that is not piped keeps them.
\<close>

definition pump :: "Session \<Rightarrow> Session" where
  "pump s =
     (case outputSink s of
        None \<Rightarrow> s
      | Some sink \<Rightarrow> s\<lparr>trace := foldl (\<lambda>t chunk. sink chunk t) (trace s) (outputQueue s),
                       outputQueue := []\<rparr>)"

definition onData :: "(string \<Rightarrow> Trace \<Rightarrow> Trace) \<Rightarrow> Session \<Rightarrow> Session" where
  "onData listener s = s\<lparr>dataListeners := dataListeners s @ [listener]\<rparr>"

text \<open>
  \<^verbatim>\<open>
  const mount = Effect.sync(() => {
    shell.output.pipeTo(new WritableStream({ write(data) { terminal.write(data) } }))
    terminal.onData((data) => { input.write(data) })
  })
  \<close>
\<close>

definition mount :: "Session \<Rightarrow> Session" where
  "mount s =
     onData (\<lambda>data. input_write data)
       (pipeTo (\<lambda>data. terminal_write data)
          (onTrace (\<lambda>t. t @ [Mounted]) s))"

text \<open>
  What reaches the session from outside: a chunk of shell output, or data from the terminal.
  A chunk of shell output is queued in \<^verbatim>\<open>shell.output\<close> and pumped to the sink if the
  stream is piped; data from the terminal is handed to every registered listener and is
  lost when there is none.
\<close>

datatype Incoming =
    ShellOutput string
  | TerminalData string

fun receive :: "Incoming \<Rightarrow> Session \<Rightarrow> Session" where
  "receive (ShellOutput chunk) s = pump (s\<lparr>outputQueue := outputQueue s @ [chunk]\<rparr>)"
| "receive (TerminalData chunk) s =
     onTrace (\<lambda>t. foldl (\<lambda>t' listener. listener chunk t') t (dataListeners s)) s"

fun receiveEach :: "Incoming list \<Rightarrow> Session \<Rightarrow> Session" where
  "receiveEach [] s = s"
| "receiveEach (incoming # later) s = receiveEach later (receive incoming s)"

text \<open>
  What happens while no code of the session runs (the fiber is suspended, or has ended):
  the pending pipe reads first, then the incoming events in order.
\<close>

definition receiveAll :: "Incoming list \<Rightarrow> Session \<Rightarrow> Session" where
  "receiveAll incoming s = receiveEach incoming (pump s)"

definition terminalWrites :: "Trace \<Rightarrow> string list" where
  "terminalWrites t = concat (map (\<lambda>e. case e of TerminalWrite data \<Rightarrow> [data] | _ \<Rightarrow> []) t)"

definition inputWrites :: "Trace \<Rightarrow> string list" where
  "inputWrites t = concat (map (\<lambda>e. case e of InputWrite data \<Rightarrow> [data] | _ \<Rightarrow> []) t)"

definition shellOutputs :: "Incoming list \<Rightarrow> string list" where
  "shellOutputs incoming =
     concat (map (\<lambda>i. case i of ShellOutput chunk \<Rightarrow> [chunk] | _ \<Rightarrow> []) incoming)"

definition terminalDatas :: "Incoming list \<Rightarrow> string list" where
  "terminalDatas incoming =
     concat (map (\<lambda>i. case i of TerminalData chunk \<Rightarrow> [chunk] | _ \<Rightarrow> []) incoming)"

text \<open>
  \<^verbatim>\<open>
  terminal.write("Loading workspace...\n")
  yield* Effect.gen(function* () {
    input.write(`cd "${workspace.name}" && clear\n`)
    yield* prepare.await
    if (env.command) {
      yield* Effect.sleep(3000)
      yield* mount
      input.write(`${env.command}\n`)
    } else {
      yield* mount
    }
  }).pipe(Effect.forkScoped)
  \<close>
  \<open>prepared\<close> says whether the prepare fiber ever completes: \<^verbatim>\<open>prepare.await\<close> returns
  the fiber's exit, which the code does not look at, and does not return while the fiber
  runs. \<open>whilePreparing\<close> is what reaches the session while the fiber is suspended in
  \<^verbatim>\<open>prepare.await\<close>, \<open>whileSleeping\<close> what reaches it during \<^verbatim>\<open>Effect.sleep(3000)\<close>.
  \<^verbatim>\<open>if (env.command)\<close> is JavaScript's truthiness test: an undefined command and the
  empty string both take the else branch. The result is the session when the last line of
  the generator has run.
\<close>

definition newline :: char where
  "newline = CHR 0x0A"

definition doubleQuote :: char where
  "doubleQuote = CHR 0x22"

text \<open>A template literal prints an undefined value as the word \<^verbatim>\<open>undefined\<close>.\<close>

definition interpolate :: "string option \<Rightarrow> string" where
  "interpolate v = (case v of None \<Rightarrow> ''undefined'' | Some str \<Rightarrow> str)"

definition truthy :: "string option \<Rightarrow> bool" where
  "truthy v = (case v of None \<Rightarrow> False | Some str \<Rightarrow> str \<noteq> [])"

definition terminalSession ::
  "Workspace \<Rightarrow> WorkspaceShell \<Rightarrow> Incoming list \<Rightarrow> bool \<Rightarrow> Incoming list \<Rightarrow> Session \<Rightarrow> Session"
where
  "terminalSession workspace env whilePreparing prepared whileSleeping s0 =
     (let s1 = onTrace (terminal_write (''Loading workspace...'' @ [newline])) s0;
          s2 = onTrace (input_write
                 (''cd '' @ [doubleQuote] @ name workspace @ [doubleQuote] @ '' && clear''
                    @ [newline])) s1;
          s3 = receiveAll whilePreparing s2
      in if \<not> prepared then s3
         else let s4 = onTrace (\<lambda>t. t @ [PrepareAwaited]) s3
              in if truthy (command env)
                 then let s5 = receiveAll whileSleeping s4;
                          s6 = onTrace (\<lambda>t. t @ [Slept 3000]) s5;
                          s7 = mount s6
                      in onTrace (input_write (interpolate (command env) @ [newline])) s7
                 else mount s4)"


section \<open>Properties of the reducer\<close>

lemma reducer_ignores_state: "reducer s1 a = reducer s2 a"
  by (cases a) simp_all

lemma dispatchAll_snoc:
  "dispatchAll state (actions @ [action]) = reducer (dispatchAll state actions) action"
  by (induction actions arbitrary: state) simp_all

lemma dispatchAll_last:
  "actions \<noteq> [] \<Longrightarrow> dispatchAll state actions = reducer state (last actions)"
proof (induction actions rule: rev_induct)
  case Nil
  then show ?case by simp
next
  case (snoc action actions)
  have "dispatchAll state (actions @ [action]) = reducer (dispatchAll state actions) action"
    by (rule dispatchAll_snoc)
  also have "\<dots> = reducer state action"
    by (rule reducer_ignores_state)
  finally show ?case by simp
qed

text \<open>
  Claim C1. From every state, the reducer sends \<^verbatim>\<open>ShowInput{type: "file", path: p}\<close>
  to a state whose creation mode is \<^verbatim>\<open>CreatingFile{path: p}\<close>, sends
  \<^verbatim>\<open>ShowInput{type: "directory", path: p}\<close> to a state whose creation mode is
  \<^verbatim>\<open>CreatingDirectory{path: p}\<close>, and sends \<^verbatim>\<open>HideInput\<close> to a state whose creation
  mode is \<^verbatim>\<open>Idle\<close>.
\<close>

theorem reducer_transitions:
  "creationMode (reducer s (ShowInput FileInput p)) = CreatingFile p
   \<and> creationMode (reducer s (ShowInput DirectoryInput p)) = CreatingDirectory p
   \<and> creationMode (reducer s HideInput) = Idle"
  by simp

text \<open>
  Claim C7. The reducer's result does not depend on the prior state: any two states are
  sent to the same state by the same action; in particular an action dispatched twice in
  a row gives the state it gives when dispatched once.
\<close>

theorem reducer_state_independent:
  "reducer s1 a = reducer s2 a \<and> reducer (reducer s1 a) a = reducer s1 a"
proof -
  have indep: "reducer x a = reducer y a" for x y :: State
    by (cases a) simp_all
  from indep [of s1 s2] indep [of "reducer s1 a" s1] show ?thesis by simp
qed

text \<open>
  Claim C3. The creation mode is tri-state. After every sequence of actions dispatched from
  the initial state the creation mode is \<^verbatim>\<open>Idle\<close>, \<^verbatim>\<open>CreatingFile\<close> or
  \<^verbatim>\<open>CreatingDirectory\<close>; when it is one of the latter two, the sequence is not empty, its
  last action is the \<^verbatim>\<open>ShowInput\<close> of the matching type, and the mode carries that
  action's path.
\<close>

theorem creationMode_tri_state:
  "(creationMode (dispatchAll initialState actions) = Idle
      \<or> (\<exists>p. creationMode (dispatchAll initialState actions) = CreatingFile p)
      \<or> (\<exists>p. creationMode (dispatchAll initialState actions) = CreatingDirectory p))
   \<and> (\<forall>p. creationMode (dispatchAll initialState actions) = CreatingFile p
          \<longrightarrow> actions \<noteq> [] \<and> last actions = ShowInput FileInput p)
   \<and> (\<forall>p. creationMode (dispatchAll initialState actions) = CreatingDirectory p
          \<longrightarrow> actions \<noteq> [] \<and> last actions = ShowInput DirectoryInput p)"
proof (cases "actions = []")
  case True
  then show ?thesis by (simp add: initialState_def)
next
  case False
  then have run: "dispatchAll initialState actions = reducer initialState (last actions)"
    by (rule dispatchAll_last)
  show ?thesis
  proof (cases "last actions")
    case (ShowInput type path)
    with run False show ?thesis by (cases type) simp_all
  next
    case HideInput
    with run False show ?thesis by simp
  qed
qed

theorem creationMode_tri_state_witness:
  "creationMode (dispatchAll initialState
       [ShowInput DirectoryInput ''src'', HideInput, ShowInput FileInput ''src/index.ts''])
     = CreatingFile ''src/index.ts''
   \<and> last [ShowInput DirectoryInput ''src'', HideInput, ShowInput FileInput ''src/index.ts'']
     = ShowInput FileInput ''src/index.ts''
   \<and> creationMode (dispatchAll initialState
       [ShowInput FileInput ''a.ts'', ShowInput DirectoryInput ''lib''])
     = CreatingDirectory ''lib''
   \<and> last [ShowInput FileInput ''a.ts'', ShowInput DirectoryInput ''lib'']
     = ShowInput DirectoryInput ''lib''"
  using creationMode_tri_state
          [of "[ShowInput DirectoryInput ''src'', HideInput, ShowInput FileInput ''src/index.ts'']"]
        creationMode_tri_state
          [of "[ShowInput FileInput ''a.ts'', ShowInput DirectoryInput ''lib'']"]
  by (simp add: initialState_def)

text \<open>
  Claim C9. The initial state of the file explorer has creation mode \<^verbatim>\<open>Idle\<close>, and the
  mode stays \<^verbatim>\<open>Idle\<close> as long as no \<^verbatim>\<open>ShowInput\<close> action has been dispatched: no
  creation input is asked for before the first \<^verbatim>\<open>ShowInput\<close>.
\<close>

theorem initialState_idle:
  "creationMode initialState = Idle
   \<and> ((\<forall>a \<in> set actions. a = HideInput)
        \<longrightarrow> creationMode (dispatchAll initialState actions) = Idle)"
proof -
  have "creationMode (dispatchAll s actions) = Idle"
    if "creationMode s = Idle" and "\<forall>a \<in> set actions. a = HideInput" for s
    using that by (induction actions arbitrary: s) simp_all
  then show ?thesis by (simp add: initialState_def)
qed

theorem initialState_idle_witness:
  "list_all (\<lambda>a. a = HideInput) [HideInput, HideInput]
   \<and> creationMode (dispatchAll initialState [HideInput, HideInput]) = Idle"
  using initialState_idle [of "[HideInput, HideInput]"] by simp


section \<open>Properties of the workspace handle\<close>


















section \<open>Properties of the terminal size signal\<close>










section \<open>Properties of the terminal\<close>

lemma terminalWrites_append [simp]:
  "terminalWrites (t @ u) = terminalWrites t @ terminalWrites u"
  by (simp add: terminalWrites_def)

lemma inputWrites_append [simp]:
  "inputWrites (t @ u) = inputWrites t @ inputWrites u"
  by (simp add: inputWrites_def)

lemma terminalWrites_Cons [simp]:
  "terminalWrites (TerminalWrite chunk # t) = chunk # terminalWrites t"
  "terminalWrites (InputWrite chunk # t) = terminalWrites t"
  "terminalWrites (Mounted # t) = terminalWrites t"
  "terminalWrites [] = []"
  by (simp_all add: terminalWrites_def)

lemma inputWrites_Cons [simp]:
  "inputWrites (InputWrite chunk # t) = chunk # inputWrites t"
  "inputWrites (TerminalWrite chunk # t) = inputWrites t"
  "inputWrites (Mounted # t) = inputWrites t"
  "inputWrites [] = []"
  by (simp_all add: inputWrites_def)

lemma drain_to_terminal:
  "foldl (\<lambda>t chunk. terminal_write chunk t) t chunks = t @ map TerminalWrite chunks"
  by (induction chunks arbitrary: t) (simp_all add: terminal_write_def)

lemma mount_fresh:
  assumes "outputSink s = None" and "dataListeners s = []"
  shows "mount s =
           s\<lparr>trace := trace s @ [Mounted],
             outputSink := Some terminal_write,
             dataListeners := [input_write]\<rparr>"
  using assms by (simp add: mount_def onData_def pipeTo_def onTrace_def)

lemma pump_to_terminal:
  assumes "outputSink s = Some terminal_write"
  shows "pump s = s\<lparr>trace := trace s @ map TerminalWrite (outputQueue s), outputQueue := []\<rparr>"
  using assms by (simp add: pump_def drain_to_terminal)

lemma pump_unpiped: "outputSink s = None \<Longrightarrow> pump s = s"
  by (simp add: pump_def)

lemma receiveEach_mounted:
  assumes "outputSink s = Some terminal_write" and "dataListeners s = [input_write]"
    and "outputQueue s = []"
  shows "terminalWrites (trace (receiveEach incoming s))
           = terminalWrites (trace s) @ shellOutputs incoming
       \<and> inputWrites (trace (receiveEach incoming s))
           = inputWrites (trace s) @ terminalDatas incoming"
  using assms
proof (induction incoming arbitrary: s)
  case Nil
  then show ?case by (simp add: shellOutputs_def terminalDatas_def)
next
  case (Cons i incoming)
  show ?case
  proof (cases i)
    case (ShellOutput chunk)
    let ?s = "receive i s"
    from Cons.prems ShellOutput
    have step: "outputSink ?s = Some terminal_write" "dataListeners ?s = [input_write]"
      "outputQueue ?s = []" "trace ?s = trace s @ [TerminalWrite chunk]"
      by (simp_all add: pump_to_terminal)
    from Cons.IH [OF step(1,2,3)] step(4) ShellOutput show ?thesis
      by (simp add: shellOutputs_def terminalDatas_def)
  next
    case (TerminalData chunk)
    let ?s = "receive i s"
    from Cons.prems TerminalData
    have step: "outputSink ?s = Some terminal_write" "dataListeners ?s = [input_write]"
      "outputQueue ?s = []" "trace ?s = input_write chunk (trace s)"
      by (simp_all add: onTrace_def)
    from Cons.IH [OF step(1,2,3)] step(4) TerminalData show ?thesis
      by (simp add: shellOutputs_def terminalDatas_def input_write_def)
  qed
qed

lemma receiveAll_unwired:
  assumes "outputSink s = None" and "dataListeners s = []"
  shows "receiveAll incoming s = s\<lparr>outputQueue := outputQueue s @ shellOutputs incoming\<rparr>"
proof -
  have "receiveEach incoming s = s\<lparr>outputQueue := outputQueue s @ shellOutputs incoming\<rparr>"
    using assms
  proof (induction incoming arbitrary: s)
    case Nil
    then show ?case by (simp add: shellOutputs_def)
  next
    case (Cons i incoming)
    show ?case
    proof (cases i)
      case (ShellOutput chunk)
      with Cons.prems have step: "receive i s = s\<lparr>outputQueue := outputQueue s @ [chunk]\<rparr>"
        by (simp add: pump_unpiped)
      with Cons.prems Cons.IH [of "receive i s"] ShellOutput show ?thesis
        by (simp add: shellOutputs_def)
    next
      case (TerminalData chunk)
      with Cons.prems have step: "receive i s = s"
        by (simp add: onTrace_def)
      with Cons.prems Cons.IH [of s] TerminalData show ?thesis
        by (simp add: shellOutputs_def)
    qed
  qed
  with assms(1) show ?thesis by (simp add: receiveAll_def pump_unpiped)
qed

text \<open>
  Claim C6. Mounting wires the streams in both directions. On a shell whose output is not
  piped yet and a terminal nobody listens to yet, after \<^verbatim>\<open>mount\<close> every chunk of
  \<^verbatim>\<open>shell.output\<close> (the chunks it held at the time of the mount, then every chunk it
  emits) is handed unchanged and in order to \<^verbatim>\<open>terminal.write\<close>, and every chunk the
  terminal produces through \<^verbatim>\<open>onData\<close> is handed unchanged and in order to the shell's
  input writer; nothing else is written to either.
\<close>

theorem mount_wires_both_directions:
  assumes "outputSink s = None" and "dataListeners s = []"
  shows "terminalWrites (trace (receiveAll incoming (mount s)))
           = terminalWrites (trace s) @ outputQueue s @ shellOutputs incoming
       \<and> inputWrites (trace (receiveAll incoming (mount s)))
           = inputWrites (trace s) @ terminalDatas incoming"
proof -
  let ?m = "pump (mount s)"
  from mount_fresh [OF assms]
  have mounted: "outputSink (mount s) = Some terminal_write"
    "dataListeners (mount s) = [input_write]"
    "trace (mount s) = trace s @ [Mounted]" "outputQueue (mount s) = outputQueue s"
    by simp_all
  from pump_to_terminal [OF mounted(1)] mounted
  have m: "outputSink ?m = Some terminal_write" "dataListeners ?m = [input_write]"
    "outputQueue ?m = []"
    "trace ?m = trace s @ [Mounted] @ map TerminalWrite (outputQueue s)"
    by simp_all
  have flushed: "terminalWrites (map TerminalWrite chunks) = chunks"
    "inputWrites (map TerminalWrite chunks) = []" for chunks
    by (induction chunks) simp_all
  from receiveEach_mounted [OF m(1,2,3), of incoming] m(4) flushed show ?thesis
    by (simp add: receiveAll_def)
qed

theorem mount_wires_both_directions_witness:
  "outputSink (newSession\<lparr>outputQueue := [''$ '']\<rparr>) = None
   \<and> dataListeners (newSession\<lparr>outputQueue := [''$ '']\<rparr>) = []
   \<and> terminalWrites (trace (receiveAll
         [TerminalData ''l'', ShellOutput ''l'', TerminalData ''s'', ShellOutput ''s'']
         (mount (newSession\<lparr>outputQueue := [''$ '']\<rparr>))))
       = [''$ '', ''l'', ''s'']
   \<and> inputWrites (trace (receiveAll
         [TerminalData ''l'', ShellOutput ''l'', TerminalData ''s'', ShellOutput ''s'']
         (mount (newSession\<lparr>outputQueue := [''$ '']\<rparr>))))
       = [''l'', ''s'']"
  using mount_wires_both_directions
    [of "newSession\<lparr>outputQueue := [''$ '']\<rparr>"
        "[TerminalData ''l'', ShellOutput ''l'', TerminalData ''s'', ShellOutput ''s'']"]
  by (simp add: newSession_def shellOutputs_def terminalDatas_def)

text \<open>
  Claim C5. For every workspace and shell environment, and whatever reaches the session
  while the fiber waits, the terminal session runs in this order: the terminal is handed
  \<^verbatim>\<open>"Loading workspace...\n"\<close>; the shell input is handed
  \<^verbatim>\<open>cd "<workspace.name>" && clear\<close> and a newline; the prepare fiber is awaited; only
  when it has completed is the wiring mounted. With a command (a non-empty string) the
  steps after the await are a sleep of 3000 milliseconds, the mount, and the write of the
  command and a newline to the shell input, in this order; without one, the mount alone.
  The shell output is piped to the terminal and the terminal's data listener is registered
  exactly when prepare has completed; until the mount nothing but the two lines above is
  written to either side, terminal data is lost and shell output is held by the stream.
\<close>

theorem terminal_session_order:
  "trace (terminalSession workspace env whilePreparing prepared whileSleeping newSession) =
     [TerminalWrite (''Loading workspace...'' @ [newline]),
      InputWrite (''cd '' @ [doubleQuote] @ name workspace @ [doubleQuote] @ '' && clear''
                    @ [newline])]
     @ (if prepared
        then PrepareAwaited #
             (case command env of
                None \<Rightarrow> [Mounted]
              | Some cmd \<Rightarrow>
                  if cmd = [] then [Mounted]
                  else [Slept 3000, Mounted, InputWrite (cmd @ [newline])])
        else [])
   \<and> outputSink (terminalSession workspace env whilePreparing prepared whileSleeping newSession)
       = (if prepared then Some terminal_write else None)
   \<and> dataListeners (terminalSession workspace env whilePreparing prepared whileSleeping newSession)
       = (if prepared then [input_write] else [])
   \<and> outputQueue (terminalSession workspace env whilePreparing prepared whileSleeping newSession)
       = shellOutputs whilePreparing
         @ (if prepared \<and> truthy (command env) then shellOutputs whileSleeping else [])"
proof -
  let ?loading = "TerminalWrite (''Loading workspace...'' @ [newline])"
  let ?cd = "InputWrite (''cd '' @ [doubleQuote] @ name workspace @ [doubleQuote]
                @ '' && clear'' @ [newline])"
  define s2 where "s2 = newSession\<lparr>trace := [?loading, ?cd]\<rparr>"
  define s3 where "s3 = receiveAll whilePreparing s2"
  define s4 where "s4 = s3\<lparr>trace := trace s3 @ [PrepareAwaited]\<rparr>"
  define s5 where "s5 = receiveAll whileSleeping s4"
  define s6 where "s6 = s5\<lparr>trace := trace s5 @ [Slept 3000]\<rparr>"
  have unwired2: "outputSink s2 = None" "dataListeners s2 = []"
    by (simp_all add: s2_def newSession_def)
  have s3: "s3 = s2\<lparr>outputQueue := shellOutputs whilePreparing\<rparr>"
    unfolding s3_def using receiveAll_unwired [OF unwired2, of whilePreparing]
    by (simp add: s2_def newSession_def)
  have unwired4: "outputSink s4 = None" "dataListeners s4 = []"
    by (simp_all add: s4_def s3 unwired2)
  have s5: "s5 = s4\<lparr>outputQueue := shellOutputs whilePreparing @ shellOutputs whileSleeping\<rparr>"
    unfolding s5_def using receiveAll_unwired [OF unwired4, of whileSleeping]
    by (simp add: s4_def s3)
  have unwired6: "outputSink s6 = None" "dataListeners s6 = []"
    by (simp_all add: s6_def s5 unwired4)
  have run: "terminalSession workspace env whilePreparing prepared whileSleeping newSession =
      (if \<not> prepared then s3
       else if truthy (command env)
            then onTrace (input_write (interpolate (command env) @ [newline])) (mount s6)
            else mount s4)"
    by (simp add: terminalSession_def Let_def s2_def s3_def s4_def s5_def s6_def onTrace_def
        terminal_write_def input_write_def newSession_def)
  show ?thesis
  proof (cases prepared)
    case False
    with run s3 show ?thesis by (simp add: s2_def newSession_def)
  next
    case True
    show ?thesis
    proof (cases "truthy (command env)")
      case False
      then have "case command env of None \<Rightarrow> True | Some cmd \<Rightarrow> cmd = []"
        by (simp add: truthy_def split: option.splits)
      with run True False mount_fresh [OF unwired4] show ?thesis
        by (simp add: s4_def s3 s2_def newSession_def split: option.splits)
    next
      case command: True
      then obtain cmd where cmd: "command env = Some cmd" "cmd \<noteq> []"
        by (auto simp: truthy_def split: option.splits)
      with run True command mount_fresh [OF unwired6] show ?thesis
        by (simp add: s6_def s5 s4_def s3 s2_def newSession_def onTrace_def input_write_def
            interpolate_def)
    qed
  qed
qed

end
